theory Spec2Isabelle
  imports Main "HOL-Library.AList"
begin

section \<open>Data model of the Classifier\<close>

text \<open>
  The Classifier keeps one mutable field, \<^verbatim>\<open>list\<close>, a \<^verbatim>\<open>DataMap\<close> from system names to
  \<^verbatim>\<open>DataMap\<close>s from class names to group objects \<^verbatim>\<open>{ map, name, id }\<close>. Every method is
  modelled as a function that takes the value of \<^verbatim>\<open>list\<close> and returns its new value.

  JavaScript containers are association lists in insertion order:
  \<^item> \<^verbatim>\<open>Map.get\<close> / property read is \<^term>\<open>map_of\<close>;
  \<^item> \<^verbatim>\<open>Map.set\<close> / property write is \<^term>\<open>AList.update\<close> (an existing key keeps its
    place, a new key goes last);
  \<^item> \<^verbatim>\<open>Map.delete\<close> / \<^verbatim>\<open>delete o[k]\<close> is \<^term>\<open>AList.delete\<close>;
  \<^item> a \<^verbatim>\<open>Set<number>\<close> is a list without repetition, \<^verbatim>\<open>Set.add\<close> appends when new.

  ExpressIDs are JavaScript numbers that hold integers; they are \<^typ>\<open>int\<close> here.
  A class name is declared \<^verbatim>\<open>string\<close>, but the builders pass \<^verbatim>\<open>Name?.value\<close> and
  \<^verbatim>\<open>IfcCategoryMap[type]\<close>, which are \<^verbatim>\<open>undefined\<close> at run time when the attribute or the
  table entry is missing; a class key is therefore a \<^typ>\<open>string option\<close>, \<^term>\<open>None\<close>
  standing for \<^verbatim>\<open>undefined\<close>.
\<close>

type_synonym FragmentIdMap = "(string \<times> int list) list"

record ClassificationGroup =
  map' :: FragmentIdMap
  id' :: "int option"
  name' :: "string option"

text \<open>
  Modelled from the spec: the class \<^verbatim>\<open>DataMap\<close> is declared in another module of the
  repository, which this development does not cover.
  The spec describes it as a mapping with unique keys, and its \<^verbatim>\<open>get\<close>, \<^verbatim>\<open>set\<close> and
  \<^verbatim>\<open>delete\<close> are modelled as those of a map. What \<^verbatim>\<open>for (const k in m)\<close>, \<^verbatim>\<open>Object.keys(m)\<close>
  and \<^verbatim>\<open>Object.values(m)\<close> enumerate on a \<^verbatim>\<open>DataMap\<close> depends on how the class keeps its
  entries, and is a parameter of the two methods that use them, \<^verbatim>\<open>remove\<close> and
  \<^verbatim>\<open>onFragmentsDisposed\<close>:
  \<^item> \<open>None\<close>: the entries are enumerated. This is the spec's reading of these loops ("for
    every system and every class within it").
  \<^item> \<open>Some names\<close>: the class derives from the built-in \<^verbatim>\<open>Map\<close>, whose entries are not
    properties; the enumerations then yield the own enumerable properties \<open>names\<close> of the
    object, the same for every \<^verbatim>\<open>DataMap\<close>.
\<close>

type_synonym enumeration = "string list option"

definition own_keys :: "enumeration \<Rightarrow> (string \<Rightarrow> 'k) \<Rightarrow> ('k \<times> 'v) list \<Rightarrow> 'k list" where
  "own_keys enum name m = (case enum of None \<Rightarrow> map fst m | Some names \<Rightarrow> map name names)"

type_synonym ClassificationSystem = "(string option \<times> ClassificationGroup) list"

type_synonym Classification = "(string \<times> ClassificationSystem) list"

text \<open>
  The consumed part of \<^verbatim>\<open>FRAGS.FragmentsGroup\<close>: \<^verbatim>\<open>data\<close> maps an ExpressID to the pair
  (geometry keys, relation record), \<^verbatim>\<open>keyFragments\<close> maps a geometry key to a fragment
  identifier, \<^verbatim>\<open>getAllPropertiesIDs()\<close> lists the ExpressIDs with properties and
  \<^verbatim>\<open>getProperties(id)\<close> returns the entity's attributes or \<^verbatim>\<open>null\<close>. Of the attributes the
  Classifier reads \<^verbatim>\<open>expressID\<close>, \<^verbatim>\<open>PredefinedType?.value\<close> and \<^verbatim>\<open>Name?.value\<close>; the last two
  are \<open>None\<close> when the expression gives \<^verbatim>\<open>undefined\<close>. The asynchronous lookups are modelled
  as plain calls: the builders run to completion one at a time.
\<close>

record IfcProperties =
  expressID' :: int
  PredefinedType :: "string option"
  Name :: "string option"

record FragmentsGroup =
  data :: "(int \<times> (int list \<times> int list)) list"
  keyFragments :: "(int \<times> string) list"
  getAllPropertiesIDs :: "int list"
  getProperties :: "int \<Rightarrow> IfcProperties option"

datatype error = FragmentIDNotFound | ModelRelationsMissing

subsection \<open>Primitives shared by the methods\<close>

text \<open>\<^verbatim>\<open>Set.prototype.add\<close>.\<close>

definition set_add :: "'a \<Rightarrow> 'a list \<Rightarrow> 'a list" where
  "set_add x xs = (if x \<in> set xs then xs else xs @ [x])"

text \<open>\<^verbatim>\<open>new Set(iterable)\<close>.\<close>

definition Set_of :: "'a list \<Rightarrow> 'a list" where
  "Set_of xs = foldl (\<lambda>s x. set_add x s) [] xs"

text \<open>
  \<^verbatim>\<open>group.keyFragments.get(key)\<close> followed by the test \<^verbatim>\<open>if (!fragID)\<close>: the lookup counts
  as failed when the key is absent and also when it yields the empty string, which
  JavaScript treats as false.
\<close>

definition resolve :: "FragmentsGroup \<Rightarrow> int \<Rightarrow> string option" where
  "resolve grp key =
     (case map_of (keyFragments grp) key of
        None \<Rightarrow> None
      | Some fragID \<Rightarrow> if fragID = [] then None else Some fragID)"

text \<open>
  The two statements every builder ends with:
  \<^verbatim>\<open>if (!m[fragID]) { m[fragID] = new Set<number>(); }  m[fragID].add(expressID);\<close>
\<close>

definition add_id :: "string \<Rightarrow> int \<Rightarrow> FragmentIdMap \<Rightarrow> FragmentIdMap" where
  "add_id fragID expressID m =
     (case map_of m fragID of
        None \<Rightarrow> AList.update fragID (set_add expressID []) m
      | Some ids \<Rightarrow> AList.update fragID (set_add expressID ids) m)"

text \<open>The (fragment, ExpressID) pairs a \<^verbatim>\<open>FragmentIdMap\<close> holds, as iterating it yields them.\<close>

definition pairs :: "FragmentIdMap \<Rightarrow> (string \<times> int) set" where
  "pairs m = (\<Union>(fragID, ids) \<in> set m. Pair fragID ` set ids)"

text \<open>\<^verbatim>\<open>list.get(systemName)?.get(className)?.map[fragID]?.has(expressID)\<close>.\<close>

definition recorded :: "Classification \<Rightarrow> string \<Rightarrow> string option \<Rightarrow> string \<Rightarrow> int \<Rightarrow> bool" where
  "recorded list systemName className fragID expressID =
     (case map_of list systemName of
        None \<Rightarrow> False
      | Some system \<Rightarrow>
          (case map_of system className of
             None \<Rightarrow> False
           | Some grp \<Rightarrow>
               (case map_of (map' grp) fragID of
                  None \<Rightarrow> False
                | Some ids \<Rightarrow> expressID \<in> set ids)))"

section \<open>saveItem\<close>

text \<open>
  One round of the loop \<^verbatim>\<open>for (const key of keys[0])\<close> of \<^verbatim>\<open>saveItem\<close>. The system is read
  again from \<^verbatim>\<open>this.list\<close> in every round; the class is created on first use with
  \<^verbatim>\<open>{ map: {}, id: parentID, name: className }\<close>; the group object is mutated in place,
  which the model writes back into the system and the index.
\<close>

definition saveItem_key ::
  "FragmentsGroup \<Rightarrow> string \<Rightarrow> string option \<Rightarrow> int \<Rightarrow> int option \<Rightarrow>
   Classification \<Rightarrow> int \<Rightarrow> Classification" where
  "saveItem_key grp systemName className expressID parentID list key =
     (case resolve grp key of
        None \<Rightarrow> list
      | Some fragmentID \<Rightarrow>
          (case map_of list systemName of
             None \<Rightarrow> list
           | Some system \<Rightarrow>
               let system1 =
                     (if map_of system className = None
                      then AList.update className
                             \<lparr>map' = [], id' = parentID, name' = className\<rparr> system
                      else system)
               in (case map_of system1 className of
                     None \<Rightarrow> AList.update systemName system1 list
                   | Some g \<Rightarrow>
                       AList.update systemName
                         (AList.update className
                            (g\<lparr>map' := add_id fragmentID expressID (map' g)\<rparr>) system1)
                         list)))"

definition saveItem ::
  "FragmentsGroup \<Rightarrow> string \<Rightarrow> string option \<Rightarrow> int \<Rightarrow> int option \<Rightarrow>
   Classification \<Rightarrow> Classification" where
  "saveItem grp systemName className expressID parentID list =
     (let list1 =
            (if map_of list systemName = None then AList.update systemName [] list else list)
      in case map_of (data grp) expressID of
           None \<Rightarrow> list1
         | Some keys \<Rightarrow>
             foldl (saveItem_key grp systemName className expressID parentID) list1 (fst keys))"

section \<open>byModel\<close>

text \<open>
  \<open>byModel_entity\<close> is the body of the loop \<^verbatim>\<open>for (const [expressID, data] of group.data)\<close>,
  run on \<^verbatim>\<open>currentModel.map\<close>: a key that does not resolve is passed over. \<open>byModel\<close> creates
  the system \<open>models\<close> and the class of the model when they are missing, runs the loop and
  writes the mutated group back.
\<close>

definition byModel_entity ::
  "FragmentsGroup \<Rightarrow> FragmentIdMap \<Rightarrow> int \<times> (int list \<times> int list) \<Rightarrow> FragmentIdMap" where
  "byModel_entity grp m entry =
     foldl (\<lambda>m key. case resolve grp key of
                       None \<Rightarrow> m
                     | Some fragID \<Rightarrow> add_id fragID (fst entry) m)
           m (fst (snd entry))"

definition byModel :: "string \<Rightarrow> FragmentsGroup \<Rightarrow> Classification \<Rightarrow> Classification" where
  "byModel modelID grp list =
     (let list1 =
            (if map_of list ''models'' = None then AList.update ''models'' [] list else list)
      in case map_of list1 ''models'' of
           None \<Rightarrow> list1
         | Some modelsClassification \<Rightarrow>
             let models1 =
                   (if map_of modelsClassification (Some modelID) = None
                    then AList.update (Some modelID)
                           \<lparr>map' = [], id' = None, name' = Some modelID\<rparr> modelsClassification
                    else modelsClassification)
             in (case map_of models1 (Some modelID) of
                   None \<Rightarrow> AList.update ''models'' models1 list1
                 | Some currentModel \<Rightarrow>
                     AList.update ''models''
                       (AList.update (Some modelID)
                          (currentModel
                             \<lparr>map' := foldl (byModel_entity grp) (map' currentModel) (data grp)\<rparr>)
                          models1)
                       list1))"

section \<open>find\<close>

text \<open>
  \<^verbatim>\<open>models\<close> maps a fragment to a \<^verbatim>\<open>Map\<close> from ExpressID to its number of matches.
  The values of that map are numbers by construction, so the test
  \<^verbatim>\<open>numberOfMatches === undefined\<close> never holds and its \<^verbatim>\<open>throw\<close> has no branch here.
\<close>

type_synonym MatchCounts = "(string \<times> (int \<times> nat) list) list"

definition count_id :: "(int \<times> nat) list \<Rightarrow> int \<Rightarrow> (int \<times> nat) list" where
  "count_id model ident =
     (case map_of model ident of
        None \<Rightarrow> AList.update ident 1 model
      | Some matchCount \<Rightarrow> AList.update ident (matchCount + 1) model)"

definition count_guid :: "MatchCounts \<Rightarrow> string \<times> int list \<Rightarrow> MatchCounts" where
  "count_guid models entry =
     (case map_of models (fst entry) of
        None \<Rightarrow> AList.update (fst entry) (foldl count_id [] (snd entry)) models
      | Some model \<Rightarrow> AList.update (fst entry) (foldl count_id model (snd entry)) models)"

definition count_value :: "ClassificationSystem \<Rightarrow> MatchCounts \<Rightarrow> string \<Rightarrow> MatchCounts" where
  "count_value systemGroups models v =
     (case map_of systemGroups (Some v) of
        None \<Rightarrow> models
      | Some groupData \<Rightarrow> foldl count_guid models (map' groupData))"

definition count_name :: "Classification \<Rightarrow> MatchCounts \<Rightarrow> string \<times> string list \<Rightarrow> MatchCounts" where
  "count_name list models entry =
     (case map_of list (fst entry) of
        None \<Rightarrow> models
      | Some systemGroups \<Rightarrow> foldl (count_value systemGroups) models (snd entry))"

definition collect_id :: "nat \<Rightarrow> string \<Rightarrow> FragmentIdMap \<Rightarrow> int \<times> nat \<Rightarrow> FragmentIdMap" where
  "collect_id filterCount guid result entry =
     (if snd entry = filterCount then add_id guid (fst entry) result else result)"

definition collect_guid :: "nat \<Rightarrow> FragmentIdMap \<Rightarrow> string \<times> (int \<times> nat) list \<Rightarrow> FragmentIdMap" where
  "collect_guid filterCount result entry =
     foldl (collect_id filterCount (fst entry)) result (snd entry)"

text \<open>
  \<^verbatim>\<open>find(filter)\<close>. The filter object is the list of its (key, value) properties, so its
  keys are distinct; \<^verbatim>\<open>None\<close> is the call without a filter, which exports the fragments of
  the FragmentsManager (passed as \<open>fragments\<close>, each with its \<^verbatim>\<open>ids\<close>).
\<close>

definition find_filter :: "(string \<times> string list) list \<Rightarrow> Classification \<Rightarrow> FragmentIdMap" where
  "find_filter flt list =
     (let filterCount = length flt;
          models = foldl (count_name list) [] flt
      in foldl (collect_guid filterCount) [] models)"

definition find' ::
  "FragmentIdMap \<Rightarrow> (string \<times> string list) list option \<Rightarrow> Classification \<Rightarrow> FragmentIdMap" where
  "find' fragments flt list =
     (case flt of
        None \<Rightarrow>
          foldl (\<lambda>result entry. AList.update (fst entry) (Set_of (snd entry)) result) [] fragments
      | Some f \<Rightarrow> find_filter f list)"

section \<open>remove\<close>

text \<open>
  \<^verbatim>\<open>remove(guid)\<close>: both loops run over the names enumerated when they start; a system that
  is not found ends the whole call (\<^verbatim>\<open>return\<close>), a class that is not found is passed over
  (\<^verbatim>\<open>continue\<close>).
\<close>

definition remove_group :: "string \<Rightarrow> ClassificationSystem \<Rightarrow> string option \<Rightarrow> ClassificationSystem" where
  "remove_group guid system groupName =
     (case map_of system groupName of
        None \<Rightarrow> system
      | Some g \<Rightarrow> AList.update groupName (g\<lparr>map' := AList.delete guid (map' g)\<rparr>) system)"

fun remove_systems ::
  "enumeration \<Rightarrow> string \<Rightarrow> string list \<Rightarrow> Classification \<Rightarrow> Classification" where
  "remove_systems enum guid [] list = list"
| "remove_systems enum guid (systemName # rest) list =
     (case map_of list systemName of
        None \<Rightarrow> list
      | Some system \<Rightarrow>
          remove_systems enum guid rest
            (AList.update systemName
               (foldl (remove_group guid) system (own_keys enum Some system)) list))"

definition remove :: "enumeration \<Rightarrow> string \<Rightarrow> Classification \<Rightarrow> Classification" where
  "remove enum guid list = remove_systems enum guid (own_keys enum (\<lambda>name. name) list) list"

section \<open>onFragmentsDisposed\<close>

text \<open>
  \<^verbatim>\<open>Object.values(group)\<close> of a group object: the values of its three own properties.
  Every group the Classifier creates is an object literal with exactly the properties
  \<^verbatim>\<open>map\<close>, \<^verbatim>\<open>id\<close> and \<^verbatim>\<open>name\<close>, and none of them is ever deleted.
\<close>

datatype group_value = MapValue FragmentIdMap | IdValue "int option" | NameValue "string option"

definition Object_values_group :: "ClassificationGroup \<Rightarrow> group_value list" where
  "Object_values_group g = [MapValue (map' g), IdValue (id' g), NameValue (name' g)]"

definition dispose_group ::
  "string list \<Rightarrow> ClassificationSystem \<Rightarrow> string option \<Rightarrow> ClassificationSystem" where
  "dispose_group fragmentIDs system groupName =
     (case map_of system groupName of
        None \<Rightarrow> system
      | Some g \<Rightarrow>
          let g1 = foldl (\<lambda>g fragmentID. g\<lparr>map' := AList.delete fragmentID (map' g)\<rparr>)
                     g fragmentIDs;
              system1 = AList.update groupName g1 system
          in if length (Object_values_group g1) = 0
             then AList.delete groupName system1
             else system1)"

text \<open>
  One round of the loop over the systems. \<^verbatim>\<open>Object.values(system).length\<close> is the number of
  names the enumeration of the system yields after \<^verbatim>\<open>system.delete(groupID)\<close>.
\<close>

definition dispose_system ::
  "enumeration \<Rightarrow> string \<Rightarrow> string list \<Rightarrow> Classification \<Rightarrow> string \<Rightarrow> Classification" where
  "dispose_system enum groupID fragmentIDs list systemName =
     (case map_of list systemName of
        None \<Rightarrow> list
      | Some system \<Rightarrow>
          let groupNames = own_keys enum Some system
          in if Some groupID \<in> set groupNames
             then let system1 = AList.delete (Some groupID) system
                  in if length (own_keys enum Some system1) = 0
                     then AList.delete systemName (AList.update systemName system1 list)
                     else AList.update systemName system1 list
             else AList.update systemName
                    (foldl (dispose_group fragmentIDs) system groupNames) list)"

definition onFragmentsDisposed ::
  "enumeration \<Rightarrow> string \<Rightarrow> string list \<Rightarrow> Classification \<Rightarrow> Classification" where
  "onFragmentsDisposed enum groupID fragmentIDs list =
     foldl (dispose_system enum groupID fragmentIDs) list (own_keys enum (\<lambda>name. name) list)"

section \<open>byPredefinedType\<close>

text \<open>
  A method that can throw returns \<open>Inl (e, s)\<close> when it throws \<open>e\<close>, where \<open>s\<close> is the
  state the mutations made before the throw have left behind, and \<open>Inr s\<close> when it
  returns. A loop stops at the first throw.
\<close>

fun try_foldl :: "('s \<Rightarrow> 'a \<Rightarrow> error \<times> 's + 's) \<Rightarrow> 's \<Rightarrow> 'a list \<Rightarrow> error \<times> 's + 's" where
  "try_foldl f s [] = Inr s"
| "try_foldl f s (x # xs) =
     (case f s x of Inl e \<Rightarrow> Inl e | Inr s' \<Rightarrow> try_foldl f s' xs)"

text \<open>
  \<^verbatim>\<open>String(entity.PredefinedType?.value).toUpperCase()\<close>; a missing attribute gives
  \<^verbatim>\<open>"UNDEFINED"\<close>. Upper-casing is modelled on the letters a to z.
\<close>

definition String :: "string option \<Rightarrow> string" where
  "String v = (case v of None \<Rightarrow> ''undefined'' | Some s \<Rightarrow> s)"

definition toUpperCase :: "string \<Rightarrow> string" where
  "toUpperCase s =
     map (\<lambda>c. let n = (of_char c :: nat) in if 97 \<le> n \<and> n \<le> 122 then char_of (n - 32) else c) s"

text \<open>
  The three nested loops of \<^verbatim>\<open>byPredefinedType\<close>, innermost first: over the geometry keys of
  one entity of \<^verbatim>\<open>group.data\<close> (a key that does not resolve throws), over the entities of
  \<^verbatim>\<open>group.data\<close>, and over the ExpressIDs with properties. The ExpressID that is recorded is
  \<^verbatim>\<open>entity.expressID\<close> of the entity whose properties were fetched, under every fragment of the
  model.
\<close>

definition byPredefinedType_key ::
  "FragmentsGroup \<Rightarrow> int \<Rightarrow> FragmentIdMap \<Rightarrow> int \<Rightarrow> error \<times> FragmentIdMap + FragmentIdMap" where
  "byPredefinedType_key grp entityID m key =
     (case resolve grp key of
        None \<Rightarrow> Inl (FragmentIDNotFound, m)
      | Some fragmentID \<Rightarrow> Inr (add_id fragmentID entityID m))"

definition byPredefinedType_data ::
  "FragmentsGroup \<Rightarrow> int \<Rightarrow> FragmentIdMap \<Rightarrow> error \<times> FragmentIdMap + FragmentIdMap" where
  "byPredefinedType_data grp entityID m =
     try_foldl (\<lambda>m entry. try_foldl (byPredefinedType_key grp entityID) m (fst (snd entry)))
       m (data grp)"

definition byPredefinedType_id ::
  "FragmentsGroup \<Rightarrow> ClassificationSystem \<Rightarrow> int \<Rightarrow>
   error \<times> ClassificationSystem + ClassificationSystem" where
  "byPredefinedType_id grp currentTypes ident =
     (case getProperties grp ident of
        None \<Rightarrow> Inr currentTypes
      | Some entity \<Rightarrow>
          let predefinedType = toUpperCase (String (PredefinedType entity));
              types1 =
                (if map_of currentTypes (Some predefinedType) = None
                 then AList.update (Some predefinedType)
                        \<lparr>map' = [], id' = None, name' = Some predefinedType\<rparr> currentTypes
                 else currentTypes)
          in (case map_of types1 (Some predefinedType) of
                None \<Rightarrow> Inr types1
              | Some currentType \<Rightarrow>
                  (case byPredefinedType_data grp (expressID' entity) (map' currentType) of
                     Inl (e, m) \<Rightarrow>
                       Inl (e, AList.update (Some predefinedType) (currentType\<lparr>map' := m\<rparr>) types1)
                   | Inr m \<Rightarrow>
                       Inr (AList.update (Some predefinedType) (currentType\<lparr>map' := m\<rparr>) types1))))"


section \<open>byEntity and byIfcRel\<close>

text \<open>
  \<^verbatim>\<open>rels[1]\<close> is \<^verbatim>\<open>undefined\<close> when the relation record is shorter than two entries. The
  table \<^verbatim>\<open>IfcCategoryMap\<close> is declared in another module and is a parameter; a code it
  does not list gives \<^verbatim>\<open>undefined\<close>.
\<close>

definition at_index :: "'a list \<Rightarrow> nat \<Rightarrow> 'a option" where
  "at_index xs n = (if n < length xs then Some (xs ! n) else None)"

definition byEntity ::
  "(int \<Rightarrow> string option) \<Rightarrow> FragmentsGroup \<Rightarrow> Classification \<Rightarrow> Classification" where
  "byEntity IfcCategoryMap grp list =
     (let list1 =
            (if map_of list ''entities'' = None then AList.update ''entities'' [] list else list)
      in foldl (\<lambda>list entry.
                  let rels = snd (snd entry);
                      entity = (case at_index rels 1 of None \<Rightarrow> None | Some t \<Rightarrow> IfcCategoryMap t)
                  in saveItem grp ''entities'' entity (fst entry) None list)
           list1 (data grp))"

text \<open>
  \<^verbatim>\<open>IfcPropertiesUtils\<close> is an external collaborator: \<open>isRel\<close> is its test of the relation
  code, \<open>relationMap\<close> the (relating entity, related entities) pairs that
  \<^verbatim>\<open>getRelationMap\<close> hands to the callback, and \<open>getEntityName\<close> the \<^verbatim>\<open>name\<close> it resolves
  (\<^verbatim>\<open>null\<close> when there is none).
\<close>

definition byIfcRel ::
  "bool \<Rightarrow> (int \<times> int list) list \<Rightarrow> (int \<Rightarrow> string option) \<Rightarrow>
   FragmentsGroup \<Rightarrow> string \<Rightarrow> Classification \<Rightarrow> Classification" where
  "byIfcRel isRel relationMap getEntityName grp systemName list =
     (if \<not> isRel then list
      else foldl (\<lambda>list entry.
                    let relatingName =
                          (case getEntityName (fst entry) of
                             None \<Rightarrow> ''NO REL NAME'' | Some n \<Rightarrow> n)
                    in foldl (\<lambda>list expressID.
                                saveItem grp systemName (Some relatingName) expressID None list)
                         list (snd entry))
             list relationMap)"

section \<open>bySpatialStructure\<close>

text \<open>
  The relations indexer, for the model at hand: \<open>relationMaps\<close> is the list of
  ExpressIDs that key \<^verbatim>\<open>indexer.relationMaps[model.uuid]\<close>, or \<open>None\<close> when the model has
  not been indexed; \<open>getEntityRelations\<close> returns the related ExpressIDs or nothing.
\<close>

record IfcRelationsIndexer =
  relationMaps :: "int list option"
  getEntityRelations :: "int \<Rightarrow> string \<Rightarrow> int list option"

record SpatialConfig =
  useProperties :: "bool option"
  isolate :: "int list option"

text \<open>\<^verbatim>\<open>Number.prototype.toString\<close> on an integer.\<close>

fun digits :: "nat \<Rightarrow> string" where
  "digits n = (if n < 10 then [char_of (48 + n)] else digits (n div 10) @ [char_of (48 + n mod 10)])"

definition toString :: "int \<Rightarrow> string" where
  "toString i = (if i < 0 then CHR ''-'' # digits (nat (- i)) else digits (nat i))"

definition isolated :: "FragmentsGroup \<Rightarrow> SpatialConfig \<Rightarrow> int \<Rightarrow> bool" where
  "isolated model config expressID =
     (case isolate config of
        None \<Rightarrow> True
      | Some categories \<Rightarrow>
          (case map_of (data model) expressID of
             None \<Rightarrow> False
           | Some d \<Rightarrow>
               (case at_index (snd d) 1 of
                  None \<Rightarrow> False
                | Some category \<Rightarrow> category \<in> set categories)))"

definition use_properties :: "SpatialConfig \<Rightarrow> bool" where
  "use_properties config = (case useProperties config of None \<Rightarrow> True | Some b \<Rightarrow> b)"

text \<open>
  The class name both passes compute: \<^verbatim>\<open>let relName = id.toString()\<close>, replaced by
  \<^verbatim>\<open>attrs.Name?.value\<close> when properties are used; \<open>None\<close> is the \<^verbatim>\<open>continue\<close> taken when
  \<^verbatim>\<open>getProperties\<close> finds nothing.
\<close>

definition rel_name :: "FragmentsGroup \<Rightarrow> SpatialConfig \<Rightarrow> int \<Rightarrow> string option option" where
  "rel_name model config ident =
     (if use_properties config
      then (case getProperties model ident of
              None \<Rightarrow> None
            | Some attrs \<Rightarrow> Some (Name attrs))
      else Some (Some (toString ident)))"

definition spatial_rel ::
  "FragmentsGroup \<Rightarrow> SpatialConfig \<Rightarrow> int \<Rightarrow> Classification \<Rightarrow> int \<Rightarrow> Classification" where
  "spatial_rel model config expressID list ident =
     (case rel_name model config ident of
        None \<Rightarrow> list
      | Some relName \<Rightarrow>
          saveItem model ''spatialStructures'' relName expressID (Some ident) list)"

definition contained_element ::
  "IfcRelationsIndexer \<Rightarrow> FragmentsGroup \<Rightarrow> string option \<Rightarrow> int \<Rightarrow>
   Classification \<Rightarrow> int \<Rightarrow> Classification" where
  "contained_element indexer model relName expressID list ident =
     (let list1 = saveItem model ''spatialStructures'' relName ident (Some expressID) list
      in case getEntityRelations indexer ident ''IsDecomposedBy'' of
           None \<Rightarrow> list1
         | Some decompositionRelations \<Rightarrow>
             foldl (\<lambda>list decomposedID.
                      saveItem model ''spatialStructures'' relName decomposedID (Some expressID) list)
               list1 decompositionRelations)"

definition spatial_entity ::
  "IfcRelationsIndexer \<Rightarrow> FragmentsGroup \<Rightarrow> SpatialConfig \<Rightarrow>
   Classification \<Rightarrow> int \<Rightarrow> Classification" where
  "spatial_entity indexer model config list expressID =
     (if \<not> isolated model config expressID then list
      else
        let list1 =
              (case getEntityRelations indexer expressID ''Decomposes'' of
                 None \<Rightarrow> list
               | Some spatialRels \<Rightarrow> foldl (spatial_rel model config expressID) list spatialRels)
        in case getEntityRelations indexer expressID ''ContainsElements'' of
             None \<Rightarrow> list1
           | Some rels \<Rightarrow>
               (case rel_name model config expressID of
                  None \<Rightarrow> list1
                | Some relName \<Rightarrow>
                    foldl (contained_element indexer model relName expressID) list1 rels))"

definition bySpatialStructure ::
  "IfcRelationsIndexer \<Rightarrow> FragmentsGroup \<Rightarrow> SpatialConfig \<Rightarrow>
   Classification \<Rightarrow> error \<times> Classification + Classification" where
  "bySpatialStructure indexer model config list =
     (case relationMaps indexer of
        None \<Rightarrow> Inl (ModelRelationsMissing, list)
      | Some modelRelations \<Rightarrow> Inr (foldl (spatial_entity indexer model config) list modelRelations))"

section \<open>Vocabulary of the specification\<close>

text \<open>
  A \<^verbatim>\<open>FragmentIdMap\<close> as JavaScript holds it: every fragment key once, every \<^verbatim>\<open>Set\<close> without
  repetition.
\<close>

definition wf_map :: "FragmentIdMap \<Rightarrow> bool" where
  "wf_map m = (distinct (map fst m) \<and> list_all (\<lambda>p. distinct (snd p)) m)"

text \<open>
  The number of matches \<^verbatim>\<open>find\<close> has counted for an ExpressID in one fragment's \<^verbatim>\<open>Map\<close>, 0 when
  it has no entry; \<open>matches_of\<close> reads it through \<^verbatim>\<open>models[guid]\<close>.
\<close>

definition count_of :: "(int \<times> nat) list \<Rightarrow> int \<Rightarrow> nat" where
  "count_of model e = (case map_of model e of None \<Rightarrow> 0 | Some n \<Rightarrow> n)"

definition matches_of :: "MatchCounts \<Rightarrow> string \<Rightarrow> int \<Rightarrow> nat" where
  "matches_of models f e = (case map_of models f of None \<Rightarrow> 0 | Some model \<Rightarrow> count_of model e)"

text \<open>
  What the three nested loops of \<^verbatim>\<open>find\<close> add to the counter of the pair \<open>(f, e)\<close>: \<open>hits\<close> for
  one class map, \<open>value_hits\<close> for one listed class name, \<open>name_hits\<close> for one filter key and
  \<open>match_count\<close> for the whole filter.
\<close>

definition hits :: "FragmentIdMap \<Rightarrow> string \<Rightarrow> int \<Rightarrow> nat" where
  "hits m f e = sum_list (map (\<lambda>p. if fst p = f then count_list (snd p) e else 0) m)"

definition value_hits :: "ClassificationSystem \<Rightarrow> string \<Rightarrow> string \<Rightarrow> int \<Rightarrow> nat" where
  "value_hits systemGroups v f e =
     (case map_of systemGroups (Some v) of None \<Rightarrow> 0 | Some groupData \<Rightarrow> hits (map' groupData) f e)"

definition name_hits :: "Classification \<Rightarrow> string \<times> string list \<Rightarrow> string \<Rightarrow> int \<Rightarrow> nat" where
  "name_hits list entry f e =
     (case map_of list (fst entry) of
        None \<Rightarrow> 0
      | Some systemGroups \<Rightarrow> sum_list (map (\<lambda>v. value_hits systemGroups v f e) (snd entry)))"

definition match_count :: "Classification \<Rightarrow> (string \<times> string list) list \<Rightarrow> string \<Rightarrow> int \<Rightarrow> nat" where
  "match_count list flt f e = sum_list (map (\<lambda>entry. name_hits list entry f e) flt)"

text \<open>
  The shape of \<^verbatim>\<open>models\<close> during \<^verbatim>\<open>find\<close>: keys occur once and every stored count is positive.
\<close>

definition wf_counts :: "MatchCounts \<Rightarrow> bool" where
  "wf_counts models =
     (distinct (map fst models) \<and>
      list_all (\<lambda>p. distinct (map fst (snd p)) \<and> list_all (\<lambda>q. 0 < snd q) (snd p)) models)"


text \<open>
  \<^verbatim>\<open>m[fragID]?.has(expressID)\<close>, and the same lookup below a class name.
\<close>

definition has_id :: "FragmentIdMap \<Rightarrow> string \<Rightarrow> int \<Rightarrow> bool" where
  "has_id m fragID expressID =
     (case map_of m fragID of None \<Rightarrow> False | Some ids \<Rightarrow> expressID \<in> set ids)"

definition class_has :: "ClassificationSystem \<Rightarrow> string option \<Rightarrow> string \<Rightarrow> int \<Rightarrow> bool" where
  "class_has system className fragID expressID =
     (case map_of system className of
        None \<Rightarrow> False
      | Some g \<Rightarrow> has_id (map' g) fragID expressID)"

text \<open>
  The geometry keys of all entities of \<^verbatim>\<open>group.data\<close>, in iteration order.
\<close>

definition data_keys :: "FragmentsGroup \<Rightarrow> int list" where
  "data_keys grp = concat (map (\<lambda>entry. fst (snd entry)) (data grp))"

text \<open>
  The class name \<^verbatim>\<open>byPredefinedType\<close> computes for an entity.
\<close>

definition predefined_class :: "IfcProperties \<Rightarrow> string option" where
  "predefined_class entity = Some (toUpperCase (String (PredefinedType entity)))"




text \<open>
  The insertion calls: \<^verbatim>\<open>saveItem\<close> and the three builders that insert through it. A
  \<^verbatim>\<open>bySpatialStructure\<close> that throws leaves the index as the throw found it.
\<close>

datatype operation =
    SaveItem FragmentsGroup string "string option" int "int option"
  | ByEntity "int \<Rightarrow> string option" FragmentsGroup
  | ByIfcRel bool "(int \<times> int list) list" "int \<Rightarrow> string option" FragmentsGroup string
  | BySpatialStructure IfcRelationsIndexer FragmentsGroup SpatialConfig

fun perform :: "Classification \<Rightarrow> operation \<Rightarrow> Classification" where
  "perform list (SaveItem grp systemName className expressID parentID) =
     saveItem grp systemName className expressID parentID list"
| "perform list (ByEntity IfcCategoryMap grp) = byEntity IfcCategoryMap grp list"
| "perform list (ByIfcRel isRel relationMap getEntityName grp systemName) =
     byIfcRel isRel relationMap getEntityName grp systemName list"
| "perform list (BySpatialStructure indexer model config) =
     (case bySpatialStructure indexer model config list of
        Inl (e, list') \<Rightarrow> list'
      | Inr list' \<Rightarrow> list')"

text \<open>
  A group after \<^verbatim>\<open>delete group.map[guid]\<close>.
\<close>

definition without_fragment :: "string \<Rightarrow> ClassificationGroup \<Rightarrow> ClassificationGroup" where
  "without_fragment guid g = g\<lparr>map' := AList.delete guid (map' g)\<rparr>"

text \<open>
  An index as the \<^verbatim>\<open>DataMap\<close>s hold it: every system name and, within a system, every class name
  occurs once.
\<close>

definition wf_index :: "Classification \<Rightarrow> bool" where
  "wf_index list = (distinct (map fst list) \<and> list_all (\<lambda>p. distinct (map fst (snd p))) list)"

text \<open>
  A filter key matches a pair when at least one of its listed classes holds the pair.
\<close>

definition key_matches :: "Classification \<Rightarrow> string \<times> string list \<Rightarrow> string \<Rightarrow> int \<Rightarrow> bool" where
  "key_matches list entry f e = list_ex (\<lambda>v. recorded list (fst entry) (Some v) f e) (snd entry)"

text \<open>
  Every fragment map of the index is well formed.
\<close>

definition wf_classes :: "Classification \<Rightarrow> bool" where
  "wf_classes list = list_all (\<lambda>p. list_all (\<lambda>q. wf_map (map' (snd q))) (snd p)) list"


subsection \<open>A small model for the evaluated instances\<close>

text \<open>
  A storey (ExpressID 1, named Level 3, no geometry of its own) contains a wall (2, in
  fragment \<open>f1\<close>), which is decomposed into a plate (3, in fragment \<open>f2\<close>) and a member (4)
  that has no geometry. In \<open>torn_model\<close> the plate's geometry key 11 resolves to no fragment.
\<close>

definition storey_model :: FragmentsGroup where
  "storey_model =
     \<lparr>data = [(2, ([10], [0, 5])), (3, ([11], [0, 7]))],
      keyFragments = [(10, ''f1''), (11, ''f2'')],
      getAllPropertiesIDs = [1, 2],
      getProperties =
        map_of [(1, \<lparr>expressID' = 1, PredefinedType = None, Name = Some ''Level 3''\<rparr>),
                (2, \<lparr>expressID' = 2, PredefinedType = Some ''standard'', Name = Some ''Wall''\<rparr>)]\<rparr>"




text \<open>
  The model classified by entity type (category code 5 is a wall, 7 a plate), the same after
  \<^verbatim>\<open>byModel\<close> under the model identifier \<open>m1\<close>, and the wall classified by \<^verbatim>\<open>byIfcRel\<close>
  under two property sets that both list it.
\<close>

definition entities_index :: Classification where
  "entities_index = byEntity (map_of [(5, ''IFCWALL''), (7, ''IFCPLATE'')]) storey_model []"

definition classified_index :: Classification where
  "classified_index =
     byEntity (map_of [(5, ''IFCWALL''), (7, ''IFCPLATE'')]) storey_model
       (byModel ''m1'' storey_model [])"

definition psets_index :: Classification where
  "psets_index =
     byIfcRel True [(100, [2]), (101, [2])] (map_of [(100, ''Pset_A''), (101, ''Pset_B'')])
       storey_model ''psets'' []"

section \<open>Lemmas\<close>

subsection \<open>Association lists\<close>

lemma update_fresh: "map_of al k = None \<Longrightarrow> AList.update k v al = al @ [(k, v)]"
  by (induction al) (auto split: if_splits)

lemma set_update_subset: "set (AList.update k v al) \<subseteq> insert (k, v) (set al)"
  by (induction al) auto

lemma in_set_updateD: "p \<in> set (AList.update k v al) \<Longrightarrow> p = (k, v) \<or> p \<in> set al"
  using set_update_subset by fastforce

subsection \<open>add_id\<close>

lemma pairs_Nil [simp]: "pairs [] = {}"
  by (simp add: pairs_def)

lemma pairs_Cons [simp]: "pairs ((f, ids) # m) = Pair f ` set ids \<union> pairs m"
  by (simp add: pairs_def)

lemma pairs_append [simp]: "pairs (m @ m') = pairs m \<union> pairs m'"
  by (simp add: pairs_def)

lemma set_set_add [simp]: "set (set_add x xs) = insert x (set xs)"
  by (auto simp: set_add_def)

lemma distinct_set_add [simp]: "distinct (set_add x xs) = distinct xs"
  by (auto simp: set_add_def)

lemma pairs_update_Some:
  "map_of m f = Some ids \<Longrightarrow> set ids \<subseteq> set ids' \<Longrightarrow>
   pairs (AList.update f ids' m) = Pair f ` set ids' \<union> pairs m"
  by (induction m) (force split: if_splits)+

lemma pairs_add_id [simp]: "pairs (add_id f e m) = insert (f, e) (pairs m)"
proof (cases "map_of m f")
  case None
  then show ?thesis by (simp add: add_id_def update_fresh)
next
  case (Some ids)
  have "Pair f ` set ids \<subseteq> pairs m"
    using Some by (induction m) (auto split: if_splits)
  then show ?thesis
    using Some pairs_update_Some [of m f ids "set_add e ids"] by (simp add: add_id_def) blast
qed

lemma list_all_update:
  "list_all P al \<Longrightarrow> P (k, v) \<Longrightarrow> list_all P (AList.update k v al)"
  by (induction al) auto

lemma wf_map_add_id: "wf_map m \<Longrightarrow> wf_map (add_id f e m)"
proof -
  assume wf: "wf_map m"
  have "distinct ids" if "map_of m f = Some ids" for ids
    using wf that by (auto simp: wf_map_def list_all_iff dest!: map_of_SomeD)
  then show ?thesis
    using wf by (auto simp: wf_map_def add_id_def distinct_update list_all_update split: option.splits)
qed

subsection \<open>find: counting\<close>

lemma count_of_count_id: "count_of (count_id model i) e = count_of model e + (if i = e then 1 else 0)"
  by (simp add: count_of_def count_id_def update_conv' split: option.splits)

lemma count_of_foldl: "count_of (foldl count_id model ids) e = count_of model e + count_list ids e"
  by (induction ids arbitrary: model) (auto simp: count_of_count_id)

lemma count_of_Nil [simp]: "count_of [] e = 0"
  by (simp add: count_of_def)

lemma matches_of_count_guid:
  "matches_of (count_guid models p) f e =
   matches_of models f e + (if fst p = f then count_list (snd p) e else 0)"
  by (simp add: matches_of_def count_guid_def update_conv' count_of_foldl split: option.splits)

lemma matches_of_foldl_guid:
  "matches_of (foldl count_guid models m) f e = matches_of models f e + hits m f e"
  by (induction m arbitrary: models) (simp_all add: hits_def matches_of_count_guid)

lemma matches_of_count_value:
  "matches_of (count_value systemGroups models v) f e =
   matches_of models f e + value_hits systemGroups v f e"
  by (simp add: count_value_def value_hits_def matches_of_foldl_guid split: option.splits)

lemma matches_of_foldl_value:
  "matches_of (foldl (count_value systemGroups) models vs) f e =
   matches_of models f e + sum_list (map (\<lambda>v. value_hits systemGroups v f e) vs)"
  by (induction vs arbitrary: models) (simp_all add: matches_of_count_value)

lemma matches_of_count_name:
  "matches_of (count_name list models entry) f e = matches_of models f e + name_hits list entry f e"
  by (simp add: count_name_def name_hits_def matches_of_foldl_value split: option.splits)

lemma matches_of_foldl_name:
  "matches_of (foldl (count_name list) models flt) f e =
   matches_of models f e + match_count list flt f e"
  by (induction flt arbitrary: models) (simp_all add: match_count_def matches_of_count_name)

subsection \<open>find: the counters stay well formed\<close>

lemma wf_count_id:
  "distinct (map fst model) \<and> list_all (\<lambda>q. 0 < snd q) model \<Longrightarrow>
   distinct (map fst (count_id model i)) \<and> list_all (\<lambda>q. 0 < snd q) (count_id model i)"
  by (auto simp: count_id_def distinct_update list_all_update split: option.splits)

lemma wf_foldl_count_id:
  "distinct (map fst model) \<and> list_all (\<lambda>q. 0 < snd q) model \<Longrightarrow>
   distinct (map fst (foldl count_id model ids)) \<and>
   list_all (\<lambda>q. 0 < snd q) (foldl count_id model ids)"
proof (induction ids arbitrary: model)
  case Nil
  then show ?case by simp
next
  case (Cons i ids)
  show ?case using Cons.IH [OF wf_count_id [OF Cons.prems]] by simp
qed

lemma wf_count_guid: "wf_counts models \<Longrightarrow> wf_counts (count_guid models p)"
proof -
  assume wf: "wf_counts models"
  have old: "distinct (map fst model) \<and> list_all (\<lambda>q. 0 < snd q) model"
    if "map_of models (fst p) = Some model" for model
    using wf that by (auto simp: wf_counts_def list_all_iff dest!: map_of_SomeD)
  have new: "distinct (map fst ([] :: (int \<times> nat) list)) \<and> list_all (\<lambda>q. 0 < snd q) ([] :: (int \<times> nat) list)"
    by simp
  show ?thesis
  proof (cases "map_of models (fst p)")
    case None
    then show ?thesis
      using wf wf_foldl_count_id [OF new, of "snd p"]
      by (simp add: wf_counts_def count_guid_def distinct_update list_all_update)
  next
    case (Some model)
    then show ?thesis
      using wf wf_foldl_count_id [OF old [OF Some], of "snd p"]
      by (simp add: wf_counts_def count_guid_def distinct_update list_all_update)
  qed
qed

lemma wf_foldl_count_guid: "wf_counts models \<Longrightarrow> wf_counts (foldl count_guid models m)"
  by (induction m arbitrary: models) (simp_all add: wf_count_guid)

lemma wf_count_value: "wf_counts models \<Longrightarrow> wf_counts (count_value systemGroups models v)"
  by (simp add: count_value_def wf_foldl_count_guid split: option.splits)

lemma wf_foldl_count_value:
  "wf_counts models \<Longrightarrow> wf_counts (foldl (count_value systemGroups) models vs)"
  by (induction vs arbitrary: models) (simp_all add: wf_count_value)

lemma wf_count_name: "wf_counts models \<Longrightarrow> wf_counts (count_name list models entry)"
  by (simp add: count_name_def wf_foldl_count_value split: option.splits)

lemma wf_foldl_count_name: "wf_counts models \<Longrightarrow> wf_counts (foldl (count_name list) models flt)"
  by (induction flt arbitrary: models) (simp_all add: wf_count_name)

subsection \<open>find: collecting the result\<close>

lemma pairs_collect_id:
  "pairs (foldl (collect_id n f) result model) = pairs result \<union> {(f, e) | e. (e, n) \<in> set model}"
  by (induction model arbitrary: result) (auto simp: collect_id_def)

lemma pairs_collect_guid:
  "pairs (foldl (collect_guid n) result models) =
   pairs result \<union> {(f, e). \<exists>model. (f, model) \<in> set models \<and> (e, n) \<in> set model}"
  by (induction models arbitrary: result) (auto simp: collect_guid_def pairs_collect_id)

lemma wf_counts_entry:
  assumes "wf_counts models"
  shows "(\<exists>model. (f, model) \<in> set models \<and> (e, n) \<in> set model) \<longleftrightarrow>
         (matches_of models f e = n \<and> 0 < n)"
proof
  assume "\<exists>model. (f, model) \<in> set models \<and> (e, n) \<in> set model"
  then obtain model where m: "(f, model) \<in> set models" and e: "(e, n) \<in> set model"
    by blast
  have d: "distinct (map fst model)" and pos: "0 < n"
    using assms m e by (force simp: wf_counts_def list_all_iff)+
  have "map_of models f = Some model"
    using assms m by (simp add: wf_counts_def)
  moreover have "map_of model e = Some n"
    using d e by simp
  ultimately show "matches_of models f e = n \<and> 0 < n"
    using pos by (simp add: matches_of_def count_of_def)
next
  assume "matches_of models f e = n \<and> 0 < n"
  then show "\<exists>model. (f, model) \<in> set models \<and> (e, n) \<in> set model"
    by (auto simp: matches_of_def count_of_def split: option.splits dest!: map_of_SomeD)
qed

lemma pairs_find_filter:
  "pairs (find_filter flt list) =
   {(f, e). match_count list flt f e = length flt \<and> flt \<noteq> []}"
proof -
  have wf: "wf_counts (foldl (count_name list) [] flt)"
    by (rule wf_foldl_count_name) (simp add: wf_counts_def)
  have m: "matches_of (foldl (count_name list) [] flt) f e = match_count list flt f e" for f e
    using matches_of_foldl_name [of list "[]" flt f e] by (simp add: matches_of_def)
  show ?thesis
    by (auto simp: find_filter_def pairs_collect_guid wf_counts_entry [OF wf] m)
qed

subsection \<open>byModel\<close>

lemma hits_wf_map: "wf_map m \<Longrightarrow> hits m f e = (if (f, e) \<in> pairs m then 1 else 0)"
proof (induction m)
  case Nil
  then show ?case by (simp add: hits_def)
next
  case (Cons p m)
  obtain g ids where p: "p = (g, ids)" by (cases p)
  have wf: "wf_map m" and d: "distinct ids" and g: "g \<notin> fst ` set m"
    using Cons.prems by (auto simp: wf_map_def p)
  have tl: "hits m f e = (if (f, e) \<in> pairs m then 1 else 0)"
    by (rule Cons.IH [OF wf])
  have hd: "count_list ids e = (if e \<in> set ids then 1 else 0)"
    using d by (induction ids) auto
  have no: "(g, e) \<notin> pairs m"
    using g by (force simp: pairs_def)
  have "hits (p # m) f e = (if g = f then count_list ids e else 0) + hits m f e"
    by (simp add: hits_def p)
  then show ?case
    using tl hd no by (auto simp: p)
qed






subsection \<open>Lookups after an insertion\<close>

lemma recorded_alt:
  "recorded list systemName className fragID expressID =
   (case map_of list systemName of
      None \<Rightarrow> False
    | Some system \<Rightarrow> class_has system className fragID expressID)"
  by (simp add: recorded_def class_has_def has_id_def split: option.splits)

lemma has_id_Nil [simp]: "\<not> has_id [] f e"
  by (simp add: has_id_def)

lemma has_id_add_id: "has_id (add_id f e m) f' e' = (has_id m f' e' \<or> (f' = f \<and> e' = e))"
  by (auto simp: has_id_def add_id_def update_conv' split: option.splits)

subsection \<open>byPredefinedType\<close>

lemma key_step_Some:
  "resolve grp k = Some f \<Longrightarrow> byPredefinedType_key grp x m k = Inr (add_id f x m)"
  by (simp add: byPredefinedType_key_def)

lemma key_step_None:
  "resolve grp k = None \<Longrightarrow> byPredefinedType_key grp x m k = Inl (FragmentIDNotFound, m)"
  by (simp add: byPredefinedType_key_def)

lemma key_loop_Inr:
  "try_foldl (byPredefinedType_key grp x) m ks = Inr m' \<Longrightarrow>
   (\<forall>k \<in> set ks. resolve grp k \<noteq> None) \<and>
   (\<forall>f e. has_id m' f e = (has_id m f e \<or> (e = x \<and> (\<exists>k \<in> set ks. resolve grp k = Some f))))"
proof (induction ks arbitrary: m)
  case Nil
  then show ?case by simp
next
  case (Cons k ks)
  show ?case
  proof (cases "resolve grp k")
    case None
    then show ?thesis using Cons.prems by (simp add: key_step_None)
  next
    case (Some f)
    then have "try_foldl (byPredefinedType_key grp x) (add_id f x m) ks = Inr m'"
      using Cons.prems by (simp add: key_step_Some)
    from Cons.IH [OF this] show ?thesis
      using Some by (auto simp: has_id_add_id)
  qed
qed



lemma data_loop_flat:
  "try_foldl (\<lambda>m entry. try_foldl f m (fst (snd entry))) m entries =
   try_foldl f m (concat (map (\<lambda>entry. fst (snd entry)) entries))"
proof -
  have app: "try_foldl f m (xs @ ys) =
             (case try_foldl f m xs of Inl e \<Rightarrow> Inl e | Inr m' \<Rightarrow> try_foldl f m' ys)" for m xs ys
    by (induction xs arbitrary: m) (auto split: sum.splits)
  show ?thesis
    by (induction entries arbitrary: m) (auto simp: app split: sum.splits)
qed

lemma byPredefinedType_data_flat:
  "byPredefinedType_data grp x m = try_foldl (byPredefinedType_key grp x) m (data_keys grp)"
  by (simp add: byPredefinedType_data_def data_keys_def data_loop_flat)

lemma class_has_update:
  "class_has (AList.update c g system) c' f e =
   (if c' = c then has_id (map' g) f e else class_has system c' f e)"
  by (simp add: class_has_def update_conv')

lemma class_has_fresh:
  "map_of system c = None \<Longrightarrow> \<not> class_has system c f e"
  by (simp add: class_has_def)


lemma id_step_Some:
  assumes "getProperties grp ident = Some entity"
  shows "\<exists>types1 currentType.
           (\<forall>c f e. class_has types1 c f e = class_has types c f e) \<and>
           map_of types1 (predefined_class entity) = Some currentType \<and>
           byPredefinedType_id grp types ident =
             (case try_foldl (byPredefinedType_key grp (expressID' entity)) (map' currentType)
                     (data_keys grp) of
                Inl (e, m) \<Rightarrow>
                  Inl (e, AList.update (predefined_class entity) (currentType\<lparr>map' := m\<rparr>) types1)
              | Inr m \<Rightarrow>
                  Inr (AList.update (predefined_class entity) (currentType\<lparr>map' := m\<rparr>) types1))"
proof (cases "map_of types (predefined_class entity)")
  case None
  let ?g = "\<lparr>map' = [], id' = None, name' = predefined_class entity\<rparr>"
  let ?t = "AList.update (predefined_class entity) ?g types"
  have "\<forall>c f e. class_has ?t c f e = class_has types c f e"
    using None by (simp add: class_has_update class_has_fresh)
  moreover have "map_of ?t (predefined_class entity) = Some ?g"
    by (simp add: update_conv')
  moreover have "byPredefinedType_id grp types ident =
             (case try_foldl (byPredefinedType_key grp (expressID' entity)) (map' ?g)
                     (data_keys grp) of
                Inl (e, m) \<Rightarrow> Inl (e, AList.update (predefined_class entity) (?g\<lparr>map' := m\<rparr>) ?t)
              | Inr m \<Rightarrow> Inr (AList.update (predefined_class entity) (?g\<lparr>map' := m\<rparr>) ?t))"
    using assms None unfolding predefined_class_def
    by (simp add: byPredefinedType_id_def byPredefinedType_data_flat update_conv' Let_def)
  ultimately show ?thesis by blast
next
  case (Some g)
  have "byPredefinedType_id grp types ident =
             (case try_foldl (byPredefinedType_key grp (expressID' entity)) (map' g)
                     (data_keys grp) of
                Inl (e, m) \<Rightarrow> Inl (e, AList.update (predefined_class entity) (g\<lparr>map' := m\<rparr>) types)
              | Inr m \<Rightarrow> Inr (AList.update (predefined_class entity) (g\<lparr>map' := m\<rparr>) types))"
    using assms Some unfolding predefined_class_def
    by (simp add: byPredefinedType_id_def byPredefinedType_data_flat Let_def)
  then show ?thesis using Some by blast
qed


lemma id_step_keys:
  assumes "byPredefinedType_id grp types ident = Inr types'"
      and "getProperties grp ident = Some entity"
  shows "\<forall>k \<in> set (data_keys grp). resolve grp k \<noteq> None"
proof -
  from id_step_Some [OF assms(2), of types] obtain types1 currentType where
    eq: "byPredefinedType_id grp types ident =
             (case try_foldl (byPredefinedType_key grp (expressID' entity)) (map' currentType)
                     (data_keys grp) of
                Inl (e, m) \<Rightarrow>
                  Inl (e, AList.update (predefined_class entity) (currentType\<lparr>map' := m\<rparr>) types1)
              | Inr m \<Rightarrow>
                  Inr (AList.update (predefined_class entity) (currentType\<lparr>map' := m\<rparr>) types1))"
    by blast
  from eq assms(1) obtain m where
    "try_foldl (byPredefinedType_key grp (expressID' entity)) (map' currentType)
       (data_keys grp) = Inr m"
    by (auto split: sum.splits)
  from key_loop_Inr [OF this] show ?thesis by blast
qed







subsection \<open>Loops, and what saveItem records\<close>

lemma foldl_preserve:
  assumes "\<And>s y. P s \<Longrightarrow> P (f s y)"
  shows "P s \<Longrightarrow> P (foldl f s xs)"
  by (induction xs arbitrary: s) (simp_all add: assms)









subsection \<open>bySpatialStructure\<close>







subsection \<open>What saveItem preserves, the builders preserve\<close>

lemma saveItem_key_cases:
  obtains (same) "saveItem_key grp s c e p list key = list"
  | (insert) f system g where
      "map_of list s = Some system"
      "map_of system c = Some g \<or>
       map_of system c = None \<and> g = \<lparr>map' = [], id' = p, name' = c\<rparr>"
      "saveItem_key grp s c e p list key =
         AList.update s (AList.update c (g\<lparr>map' := add_id f e (map' g)\<rparr>) system) list"
proof (cases "resolve grp key")
  case None
  then show ?thesis by (intro same) (simp add: saveItem_key_def)
next
  case f: (Some f)
  show ?thesis
  proof (cases "map_of list s")
    case None
    then show ?thesis using f by (intro same) (simp add: saveItem_key_def)
  next
    case (Some system)
    show ?thesis
    proof (cases "map_of system c")
      case None
      have "saveItem_key grp s c e p list key =
            AList.update s
              (AList.update c
                 (\<lparr>map' = [], id' = p, name' = c\<rparr>
                    \<lparr>map' := add_id f e (map' \<lparr>map' = [], id' = p, name' = c\<rparr>)\<rparr>) system) list"
        using f Some None by (simp add: saveItem_key_def Let_def update_conv')
      then show ?thesis using Some None by (intro insert [of system]) auto
    next
      case g: (Some g)
      have "saveItem_key grp s c e p list key =
            AList.update s (AList.update c (g\<lparr>map' := add_id f e (map' g)\<rparr>) system) list"
        using f Some g by (simp add: saveItem_key_def Let_def)
      then show ?thesis using Some g by (intro insert [of system]) auto
    qed
  qed
qed

lemma saveItem_preserves:
  assumes key: "\<And>l key. P l \<Longrightarrow> P (saveItem_key grp s c e p l key)"
      and new: "\<And>l. P l \<Longrightarrow> map_of l s = None \<Longrightarrow> P (AList.update s [] l)"
  shows "P list \<Longrightarrow> P (saveItem grp s c e p list)"
proof -
  assume P: "P list"
  let ?l = "if map_of list s = None then AList.update s [] list else list"
  have l: "P ?l"
    using P new by simp
  have "P (foldl (saveItem_key grp s c e p) ?l ks)" for ks
    using l by (rule foldl_preserve [rotated]) (rule key)
  then have "P (case map_of (data grp) e of
                  None \<Rightarrow> ?l
                | Some keys \<Rightarrow> foldl (saveItem_key grp s c e p) ?l (fst keys))"
    using l by (cases "map_of (data grp) e") simp_all
  then show ?thesis
    by (simp add: saveItem_def Let_def)
qed

lemma byEntity_preserves:
  assumes save: "\<And>c e l. P l \<Longrightarrow> P (saveItem grp ''entities'' c e None l)"
      and new: "\<And>l. P l \<Longrightarrow> map_of l ''entities'' = None \<Longrightarrow> P (AList.update ''entities'' [] l)"
  shows "P list \<Longrightarrow> P (byEntity IfcCategoryMap grp list)"
proof -
  assume P: "P list"
  let ?l = "if map_of list ''entities'' = None then AList.update ''entities'' [] list else list"
  have l: "P ?l"
    using P new by simp
  show ?thesis
    unfolding byEntity_def Let_def
    using l by (rule foldl_preserve [rotated]) (simp add: save)
qed

lemma byIfcRel_preserves:
  assumes save: "\<And>c e l. P l \<Longrightarrow> P (saveItem grp systemName c e None l)"
  shows "P list \<Longrightarrow> P (byIfcRel isRel relationMap getEntityName grp systemName list)"
proof (cases isRel)
  case False
  assume "P list"
  then show ?thesis using False by (simp add: byIfcRel_def)
next
  case True
  assume P: "P list"
  have inner: "P (foldl (\<lambda>list expressID. saveItem grp systemName n expressID None list) l xs)"
    if "P l" for l xs n
    using that by (rule foldl_preserve [rotated]) (rule save)
  have "P (foldl (\<lambda>list entry.
                    let relatingName =
                          (case getEntityName (fst entry) of
                             None \<Rightarrow> ''NO REL NAME'' | Some n \<Rightarrow> n)
                    in foldl (\<lambda>list expressID.
                                saveItem grp systemName (Some relatingName) expressID None list)
                         list (snd entry)) list relationMap)"
    using P by (rule foldl_preserve [rotated]) (simp add: inner Let_def)
  then show ?thesis using True by (simp add: byIfcRel_def)
qed

lemma spatial_entity_preserves:
  assumes save: "\<And>c e p l. P l \<Longrightarrow> P (saveItem model ''spatialStructures'' c e p l)"
  shows "P list \<Longrightarrow> P (spatial_entity indexer model config list x)"
proof -
  assume P: "P list"
  have rel: "P (spatial_rel model config x l ident)" if "P l" for l ident
    using that by (simp add: spatial_rel_def save split: option.splits)
  have parts: "P (foldl (\<lambda>list decomposedID.
                    saveItem model ''spatialStructures'' n decomposedID (Some x) list) l ds)"
    if "P l" for l ds n
    using that by (rule foldl_preserve [rotated]) (rule save)
  have elem: "P (contained_element indexer model n x l ident)" if "P l" for l ident n
    using that by (simp add: contained_element_def Let_def save parts split: option.splits)
  have rels: "P (foldl (spatial_rel model config x) l xs)" if "P l" for l xs
    using that by (rule foldl_preserve [rotated]) (rule rel)
  have elems: "P (foldl (contained_element indexer model n x) l xs)" if "P l" for l xs n
    using that by (rule foldl_preserve [rotated]) (rule elem)
  show ?thesis
    using P by (simp add: spatial_entity_def Let_def rels elems split: option.splits)
qed

lemma perform_preserves:
  assumes key: "\<And>grp s c e p l key. P l \<Longrightarrow> P (saveItem_key grp s c e p l key)"
      and new: "\<And>s l. P l \<Longrightarrow> map_of l s = None \<Longrightarrow> P (AList.update s [] l)"
  shows "P list \<Longrightarrow> P (perform list operation)"
proof -
  assume P: "P list"
  have save: "P (saveItem grp s c e p l)" if "P l" for grp s c e p l
  proof (rule saveItem_preserves [where P = P])
    show "P (saveItem_key grp s c e p l' k)" if "P l'" for l' k
      using that by (rule key)
    show "P (AList.update s [] l')" if "P l'" and "map_of l' s = None" for l'
      using that by (rule new)
    show "P l"
      by (rule that)
  qed
  show ?thesis
  proof (cases operation)
    case (SaveItem grp s c e p)
    then show ?thesis using P by (simp add: save)
  next
    case (ByEntity t grp)
    have "P (byEntity t grp list)"
    proof (rule byEntity_preserves [where P = P])
      show "P (saveItem grp ''entities'' c e None l)" if "P l" for c e l
        using that by (rule save)
      show "P (AList.update ''entities'' [] l)" if "P l" and "map_of l ''entities'' = None" for l
        using that by (rule new)
      show "P list"
        by (rule P)
    qed
    then show ?thesis using ByEntity by simp
  next
    case (ByIfcRel isRel relationMap getEntityName grp systemName)
    have "P (byIfcRel isRel relationMap getEntityName grp systemName list)"
    proof (rule byIfcRel_preserves [where P = P])
      show "P (saveItem grp systemName c e None l)" if "P l" for c e l
        using that by (rule save)
      show "P list"
        by (rule P)
    qed
    then show ?thesis using ByIfcRel by simp
  next
    case (BySpatialStructure indexer model config)
    have step: "P (spatial_entity indexer model config l x)" if "P l" for l x
    proof (rule spatial_entity_preserves [where P = P])
      show "P (saveItem model ''spatialStructures'' c e p l')" if "P l'" for c e p l'
        using that by (rule save)
      show "P l"
        by (rule that)
    qed
    have "P (foldl (spatial_entity indexer model config) list xs)" for xs
      using P by (rule foldl_preserve [rotated]) (rule step)
    then show ?thesis
      using P BySpatialStructure by (simp add: bySpatialStructure_def split: option.splits)
  qed
qed

subsection \<open>Insertions create no empty class\<close>

lemma add_id_nonempty [simp]: "add_id f e m \<noteq> []"
  by (simp add: add_id_def split: option.splits)





subsection \<open>remove\<close>

lemma map_of_middle:
  "k \<notin> fst ` set pre \<Longrightarrow> map_of (pre @ (k, v) # rest) k = Some v"
  by (induction pre) auto

lemma update_middle:
  "k \<notin> fst ` set pre \<Longrightarrow> AList.update k w (pre @ (k, v) # rest) = pre @ (k, w) # rest"
  by (induction pre) auto

lemma remove_groups_map:
  "distinct (map fst (pre @ todo)) \<Longrightarrow>
   foldl (remove_group guid) (pre @ todo) (map fst todo) =
   pre @ map (\<lambda>q. (fst q, without_fragment guid (snd q))) todo"
proof (induction todo arbitrary: pre)
  case Nil
  then show ?case by simp
next
  case (Cons q todo)
  obtain c g where q: "q = (c, g)" by (cases q)
  have c: "c \<notin> fst ` set pre"
    using Cons.prems by (auto simp: q)
  have step: "remove_group guid (pre @ (c, g) # todo) c = (pre @ [(c, without_fragment guid g)]) @ todo"
    by (simp add: remove_group_def map_of_middle [OF c] update_middle [OF c] without_fragment_def
             del: map_of_append)
  have d: "distinct (map fst ((pre @ [(c, without_fragment guid g)]) @ todo))"
    using Cons.prems by (simp add: q)
  show ?case
    using Cons.IH [OF d] by (simp add: q step)
qed

lemma remove_systems_map:
  "distinct (map fst (pre @ todo)) \<Longrightarrow> list_all (\<lambda>p. distinct (map fst (snd p))) todo \<Longrightarrow>
   remove_systems None guid (map fst todo) (pre @ todo) =
   pre @ map (\<lambda>p. (fst p, map (\<lambda>q. (fst q, without_fragment guid (snd q))) (snd p))) todo"
proof (induction todo arbitrary: pre)
  case Nil
  then show ?case by simp
next
  case (Cons p todo)
  obtain s system where p: "p = (s, system)" by (cases p)
  let ?sys = "map (\<lambda>q. (fst q, without_fragment guid (snd q))) system"
  have s: "s \<notin> fst ` set pre"
    using Cons.prems(1) by (auto simp: p)
  have ds: "distinct (map fst ([] @ system))"
    using Cons.prems(2) by (simp add: p)
  have groups: "foldl (remove_group guid) system (map fst system) = ?sys"
    using remove_groups_map [OF ds, of guid] by simp
  have d: "distinct (map fst ((pre @ [(s, ?sys)]) @ todo))"
    using Cons.prems(1) by (simp add: p)
  have rest: "list_all (\<lambda>p. distinct (map fst (snd p))) todo"
    using Cons.prems(2) by simp
  show ?case
    using Cons.IH [OF d rest]
    by (simp add: p map_of_middle [OF s] update_middle [OF s] groups own_keys_def
             del: map_of_append)
qed

lemma remove_deletes_everywhere:
  assumes "wf_index list"
  shows "remove None guid list =
         map (\<lambda>p. (fst p, map (\<lambda>q. (fst q, without_fragment guid (snd q))) (snd p))) list"
  using assms remove_systems_map [of "[]" list guid]
  by (simp add: remove_def wf_index_def own_keys_def)

lemma remove_sees_no_system:
  assumes "list_all (\<lambda>name. map_of list name = None) names"
  shows "remove (Some names) guid list = list"
  using assms by (cases names) (simp_all add: remove_def own_keys_def)

subsection \<open>onFragmentsDisposed\<close>

lemma onFragmentsDisposed_sees_no_system:
  assumes "list_all (\<lambda>name. map_of list name = None) names"
  shows "onFragmentsDisposed (Some names) groupID fragmentIDs list = list"
proof -
  have "foldl (dispose_system (Some names) groupID fragmentIDs) list ns = list"
    if "list_all (\<lambda>name. map_of list name = None) ns" for ns
    using that by (induction ns) (simp_all add: dispose_system_def)
  then show ?thesis
    using assms by (simp add: onFragmentsDisposed_def own_keys_def)
qed

text \<open>
  With the entries enumerated, the branch for a system without a class named \<open>groupID\<close>
  deletes the fragments from every class and removes nothing: the test on
  \<^verbatim>\<open>Object.values(group)\<close> compares 3 with 0.
\<close>

lemma dispose_group_keeps:
  "dispose_group fragmentIDs system groupName =
   (case map_of system groupName of
      None \<Rightarrow> system
    | Some g \<Rightarrow>
        AList.update groupName
          (foldl (\<lambda>g fragmentID. g\<lparr>map' := AList.delete fragmentID (map' g)\<rparr>) g fragmentIDs)
          system)"
  by (simp add: dispose_group_def Object_values_group_def Let_def split: option.splits)

lemma dispose_group_names:
  "map fst (dispose_group fragmentIDs system groupName) = map fst system"
proof -
  have "map fst (AList.update k v al) = map fst al" if "map_of al k = Some w" for k v w and al :: "('a \<times> 'b) list"
    using that by (induction al) (auto split: if_splits)
  then show ?thesis
    by (auto simp: dispose_group_keeps split: option.splits)
qed

lemma dispose_system_keeps_classes:
  assumes "map_of list systemName = Some system" and "Some groupID \<notin> fst ` set system"
  shows "\<exists>system'. map_of (dispose_system None groupID fragmentIDs list systemName) systemName =
                      Some system' \<and> map fst system' = map fst system"
proof -
  have names: "map fst (foldl (dispose_group fragmentIDs) s ns) = map fst s" for s ns
    by (induction ns arbitrary: s) (simp_all add: dispose_group_names)
  show ?thesis
    using assms names by (simp add: dispose_system_def own_keys_def update_conv')
qed

subsection \<open>Unresolved keys\<close>



subsection \<open>byPredefinedType returns when every key resolves\<close>





subsection \<open>find: when counting agrees with AND across keys, OR within a key\<close>

lemma pairs_has_id:
  assumes "wf_map m"
  shows "((f, e) \<in> pairs m) = has_id m f e"
proof -
  have d: "distinct (map fst m)"
    using assms by (simp add: wf_map_def)
  have "has_id m f e = (\<exists>ids. map_of m f = Some ids \<and> e \<in> set ids)"
    by (simp add: has_id_def split: option.splits)
  also have "\<dots> = (\<exists>ids. (f, ids) \<in> set m \<and> e \<in> set ids)"
    using d by simp
  also have "\<dots> = ((f, e) \<in> pairs m)"
    by (auto simp: pairs_def)
  finally show ?thesis by simp
qed

lemma hits_has_id: "wf_map m \<Longrightarrow> hits m f e = (if has_id m f e then 1 else 0)"
  by (simp add: hits_wf_map pairs_has_id)

lemma wf_classes_map:
  "wf_classes list \<Longrightarrow> map_of list s = Some system \<Longrightarrow> map_of system c = Some g \<Longrightarrow>
   wf_map (map' g)"
  by (fastforce simp: wf_classes_def list_all_iff dest!: map_of_SomeD)

lemma value_hits_recorded:
  assumes "wf_classes list" and "map_of list s = Some system"
  shows "value_hits system v f e = (if recorded list s (Some v) f e then 1 else 0)"
proof (cases "map_of system (Some v)")
  case None
  then show ?thesis using assms(2) by (simp add: value_hits_def recorded_alt class_has_def)
next
  case (Some g)
  have "wf_map (map' g)"
    by (rule wf_classes_map [OF assms Some])
  then show ?thesis
    using assms(2) Some by (simp add: value_hits_def recorded_alt class_has_def hits_has_id)
qed

lemma sum_list_positive:
  "(0 < sum_list (map g xs)) = (\<exists>x \<in> set xs. 0 < (g x :: nat))"
  by (induction xs) auto

lemma name_hits_positive:
  assumes "wf_classes list"
  shows "(0 < name_hits list entry f e) = key_matches list entry f e"
proof (cases "map_of list (fst entry)")
  case None
  then show ?thesis
    by (simp add: name_hits_def key_matches_def recorded_alt list_ex_iff)
next
  case (Some system)
  show ?thesis
    using Some
    by (simp add: name_hits_def key_matches_def sum_list_positive list_ex_iff
                  value_hits_recorded [OF assms Some])
qed

lemma sum_list_full:
  "\<forall>x \<in> set xs. g x \<le> (1::nat) \<Longrightarrow>
   (sum_list (map g xs) = length xs) = (\<forall>x \<in> set xs. 0 < g x)"
proof (induction xs)
  case Nil
  then show ?case by simp
next
  case (Cons a xs)
  have le: "sum_list (map g xs) \<le> length xs"
    using Cons.prems by (induction xs) (auto simp: le_Suc_eq)
  have a: "g a = 0 \<or> g a = 1"
    using Cons.prems by (auto simp: le_Suc_eq)
  show ?case
    using Cons le a by auto
qed

lemma find_and_or:
  assumes "wf_classes list"
      and "\<forall>entry \<in> set flt. \<forall>f e. name_hits list entry f e \<le> 1"
  shows "pairs (find_filter flt list) =
         {(f, e). flt \<noteq> [] \<and> (\<forall>entry \<in> set flt. key_matches list entry f e)}"
proof -
  have "(match_count list flt f e = length flt) = (\<forall>entry \<in> set flt. key_matches list entry f e)"
    for f e
    using sum_list_full [of flt "\<lambda>entry. name_hits list entry f e"] assms(2)
    by (simp add: match_count_def name_hits_positive [OF assms(1)])
  then show ?thesis
    by (auto simp: pairs_find_filter)
qed

lemma find_two_systems:
  assumes "wf_classes list"
  shows "((f, e) \<in> pairs (find_filter [(system1, [a]), (system2, [b])] list)) =
         (recorded list system1 (Some a) f e \<and> recorded list system2 (Some b) f e)"
proof -
  have one: "name_hits list (s, [v]) f' e' \<le> 1" for s v f' e'
  proof (cases "map_of list s")
    case None
    then show ?thesis by (simp add: name_hits_def)
  next
    case (Some system)
    then show ?thesis
      by (simp add: name_hits_def value_hits_recorded [OF assms Some])
  qed
  have "pairs (find_filter [(system1, [a]), (system2, [b])] list) =
         {(f, e). [(system1, [a]), (system2, [b])] \<noteq> [] \<and>
                  (\<forall>entry \<in> set [(system1, [a]), (system2, [b])]. key_matches list entry f e)}"
    by (rule find_and_or [OF assms]) (use one in auto)
  then show ?thesis
    by (simp add: key_matches_def)
qed

subsection \<open>Insertions keep the index well formed\<close>

lemma wf_index_system:
  "wf_index list \<Longrightarrow> map_of list s = Some system \<Longrightarrow> distinct (map fst system)"
  by (fastforce simp: wf_index_def list_all_iff dest!: map_of_SomeD)

lemma wf_index_update:
  "wf_index list \<Longrightarrow> distinct (map fst system) \<Longrightarrow> wf_index (AList.update s system list)"
  by (simp add: wf_index_def distinct_update list_all_update)

lemma saveItem_key_wf_index:
  assumes "wf_index list"
  shows "wf_index (saveItem_key grp s c e p list key)"
proof (cases rule: saveItem_key_cases [of grp s c e p list key])
  case same
  then show ?thesis using assms by simp
next
  case (insert f system g)
  have "distinct (map fst system)"
    by (rule wf_index_system [OF assms insert(1)])
  then show ?thesis
    using assms by (simp add: insert(3) wf_index_update distinct_update)
qed

lemma wf_classes_system:
  "wf_classes list \<Longrightarrow> map_of list s = Some system \<Longrightarrow>
   list_all (\<lambda>q. wf_map (map' (snd q))) system"
  by (fastforce simp: wf_classes_def list_all_iff dest!: map_of_SomeD)

lemma wf_classes_update:
  "wf_classes list \<Longrightarrow> list_all (\<lambda>q. wf_map (map' (snd q))) system \<Longrightarrow>
   wf_classes (AList.update s system list)"
  by (simp add: wf_classes_def list_all_update)

lemma wf_map_Nil [simp]: "wf_map []"
  by (simp add: wf_map_def)

lemma saveItem_key_wf_classes:
  assumes "wf_classes list"
  shows "wf_classes (saveItem_key grp s c e p list key)"
proof (cases rule: saveItem_key_cases [of grp s c e p list key])
  case same
  then show ?thesis using assms by simp
next
  case (insert f system g)
  have sys: "list_all (\<lambda>q. wf_map (map' (snd q))) system"
    by (rule wf_classes_system [OF assms insert(1)])
  have "wf_map (map' g)"
    using insert(2) wf_classes_map [OF assms insert(1)] by auto
  then have "wf_map (add_id f e (map' g))"
    by (rule wf_map_add_id)
  then show ?thesis
    using assms sys by (simp add: insert(3) wf_classes_update list_all_update)
qed

lemma insertions_well_formed:
  "wf_index (foldl perform [] operations) \<and> wf_classes (foldl perform [] operations)"
proof
  have "wf_index l \<Longrightarrow> wf_index (perform l operation)" for l operation
    by (rule perform_preserves [where P = wf_index])
       (simp_all add: saveItem_key_wf_index wf_index_update)
  moreover have "wf_index []"
    by (simp add: wf_index_def)
  ultimately show "wf_index (foldl perform [] operations)"
    by (rule foldl_preserve [where P = wf_index and f = perform])
  have "wf_classes l \<Longrightarrow> wf_classes (perform l operation)" for l operation
    by (rule perform_preserves [where P = wf_classes])
       (simp_all add: saveItem_key_wf_classes wf_classes_update)
  moreover have "wf_classes []"
    by (simp add: wf_classes_def)
  ultimately show "wf_classes (foldl perform [] operations)"
    by (rule foldl_preserve [where P = wf_classes and f = perform])
qed

subsection \<open>byPredefinedType without properties\<close>



section \<open>The claims\<close>

subsection \<open>C1: a filter is an AND across systems and an OR within a system\<close>

text \<open>
  Claim C1: for every index and every filter, \<^verbatim>\<open>find(filter)\<close> returns exactly the pairs that,
  for every filter key, lie in at least one of that key's listed classes.

  \<^verbatim>\<open>find\<close> counts one match per listed class that holds the pair and keeps the pairs whose
  count equals the number of filter keys ("1 match per condition", as its comment says).
  A pair that lies in two listed classes of one system is counted twice for that one key.
  In \<open>psets_index\<close> the wall 2 of fragment \<open>f1\<close> is in both property sets; asked for the
  members of either, \<^verbatim>\<open>find\<close> returns nothing. On a well-formed index, as the insertions
  build it (lemma \<open>insertions_well_formed\<close>), the claim holds where no pair is counted twice
  under one key (lemma \<open>find_and_or\<close>), and so does its instance with two keys of one class
  each (lemma \<open>find_two_systems\<close>).
\<close>

theorem find_drops_pair_in_two_listed_classes:
  "recorded psets_index ''psets'' (Some ''Pset_A'') ''f1'' 2 \<and>
   recorded psets_index ''psets'' (Some ''Pset_B'') ''f1'' 2 \<and>
   match_count psets_index [(''psets'', [''Pset_A'', ''Pset_B''])] ''f1'' 2 = 2 \<and>
   find' [] (Some [(''psets'', [''Pset_A'', ''Pset_B''])]) psets_index = []"
  by code_simp

subsection \<open>C2: byModel followed by find\<close>


subsection \<open>C3: what a disposal notification removes\<close>

text \<open>
  Claim C3: \<^verbatim>\<open>onFragmentsDisposed\<close> deletes the class named \<^verbatim>\<open>groupID\<close> from a system that has
  one (and the system when it is left without classes); in every other system it deletes the
  keys \<^verbatim>\<open>fragmentIDs\<close> from every class, removes every class whose fragment map becomes empty
  and removes the system if it becomes empty.

  The second half is not what the handler does. Its test \<^verbatim>\<open>Object.values(group).length === 0\<close>
  looks at the group object, which always has its three properties, instead of at
  \<^verbatim>\<open>group.map\<close>, and that branch has no statement that deletes the system (lemma
  \<open>dispose_system_keeps_classes\<close>). With the model classified by \<^verbatim>\<open>byModel\<close> and \<^verbatim>\<open>byEntity\<close>,
  disposing the model removes the system \<open>models\<close> and leaves both entity classes in place
  with empty fragment maps. That is with the entries of a \<^verbatim>\<open>DataMap\<close> enumerated; where the
  enumeration yields own properties instead, the handler meets no system and leaves the whole
  index as it is (lemma \<open>onFragmentsDisposed_sees_no_system\<close>), shown here for an object
  without enumerable properties.
\<close>

theorem disposal_keeps_emptied_classes:
  "onFragmentsDisposed None ''m1'' [''f1'', ''f2''] classified_index =
     [(''entities'',
       [(Some ''IFCWALL'', \<lparr>map' = [], id' = None, name' = Some ''IFCWALL''\<rparr>),
        (Some ''IFCPLATE'', \<lparr>map' = [], id' = None, name' = Some ''IFCPLATE''\<rparr>)])] \<and>
   onFragmentsDisposed (Some []) ''m1'' [''f1'', ''f2''] classified_index = classified_index"
  by code_simp

subsection \<open>C4: remove against disposal\<close>

text \<open>
  Claim C4: \<^verbatim>\<open>remove(guid)\<close> deletes the entry of \<open>guid\<close> from every class of every system and
  changes nothing else, whereas a disposal notification for the same fragment prunes the class
  and the system that become empty.

  With the entries of a \<^verbatim>\<open>DataMap\<close> enumerated the first half holds on every index whose names
  are distinct (lemma \<open>remove_deletes_everywhere\<close>). The second half does not hold: on
  \<open>entities_index\<close> a disposal notification for fragment \<open>f1\<close> leaves exactly what
  \<^verbatim>\<open>remove\<close> leaves, the class of the wall with an empty fragment map. Where the enumeration
  yields own properties instead, neither call changes the index (lemmas
  \<open>remove_sees_no_system\<close> and \<open>onFragmentsDisposed_sees_no_system\<close>).
\<close>

theorem disposal_prunes_no_more_than_remove:
  "remove None ''f1'' entities_index =
     [(''entities'',
       [(Some ''IFCWALL'', \<lparr>map' = [], id' = None, name' = Some ''IFCWALL''\<rparr>),
        (Some ''IFCPLATE'', \<lparr>map' = [(''f2'', [3])], id' = None, name' = Some ''IFCPLATE''\<rparr>)])] \<and>
   onFragmentsDisposed None ''m1'' [''f1''] entities_index = remove None ''f1'' entities_index \<and>
   onFragmentsDisposed (Some []) ''m1'' [''f1''] entities_index = remove (Some []) ''f1'' entities_index"
  by code_simp

subsection \<open>C5: saveItem for an entity without data\<close>

text \<open>
  Claim C5, amended: for an ExpressID that has no entry in \<^verbatim>\<open>group.data\<close>, \<^verbatim>\<open>saveItem\<close> creates
  no class and no fragment entry and changes no existing system; the one thing it does is to
  append the empty system \<open>systemName\<close> when the index has no system of that name, because
  the system is created before the entity is looked up.
\<close>

theorem saveItem_without_data:
  assumes "map_of (data grp) expressID = None"
  shows "saveItem grp systemName className expressID parentID list =
           (if map_of list systemName = None then list @ [(systemName, [])] else list)"
  using assms by (simp add: saveItem_def update_fresh)

theorem saveItem_without_data_witness:
  "map_of (data storey_model) 4 = None \<and>
   saveItem storey_model ''entities'' (Some ''IFCMEMBER'') 4 None entities_index = entities_index"
proof -
  have h: "map_of (data storey_model) 4 = None"
    by (simp add: storey_model_def)
  have s: "map_of entities_index ''entities'' \<noteq> None"
    by code_simp
  show ?thesis
    using h s saveItem_without_data [OF h, of "''entities''" "Some ''IFCMEMBER''" None entities_index]
    by simp
qed

text \<open>
  As stated, with "the index is left exactly unchanged, no system is created", the claim fails
  on the empty index.
\<close>

theorem saveItem_without_data_counterexample:
  "map_of (data storey_model) 4 = None \<and>
   saveItem storey_model ''entities'' (Some ''IFCMEMBER'') 4 None [] = [(''entities'', [])] \<and>
   saveItem storey_model ''entities'' (Some ''IFCMEMBER'') 4 None [] \<noteq> []"
  by code_simp

subsection \<open>C6: empty systems and empty classes\<close>




subsection \<open>C7: sub-parts inherit the spatial class\<close>




subsection \<open>C8: a geometry key without a fragment\<close>



subsection \<open>C9: byPredefinedType records an entity under every fragment of the model\<close>




subsection \<open>C10: a filter key that names no system\<close>

text \<open>
  Claim C10: a filter with a key that names no system of the index makes \<^verbatim>\<open>find\<close> return the
  empty map, because no pair can reach a count equal to the number of filter keys.

  The unknown key adds nothing to any count, but a pair that lies in two listed classes of
  another key is counted twice there and reaches the number of keys all the same: with the
  two property sets and an unknown system in the filter, \<^verbatim>\<open>find\<close> returns the wall.
\<close>

theorem find_unknown_system_not_empty:
  "map_of psets_index ''unknown'' = None \<and>
   find' [] (Some [(''psets'', [''Pset_A'', ''Pset_B'']), (''unknown'', [''x''])]) psets_index =
     [(''f1'', [2])]"
  by code_simp

end
